theory Spec2Isabelle
  imports Main "HOL-Library.Word"
begin

section \<open>Crypto.Util.py3compat: the Python 3 branch and the buffer helpers\<close>

text \<open>
  The module selects its definitions once, on \<^verbatim>\<open>sys.version_info[0]\<close>. The
  development embeds the \<^verbatim>\<open>else\<close> branch (Python 3: lines 90 to 112) and the
  three helpers defined after it (\<^verbatim>\<open>_copy_bytes\<close>, \<^verbatim>\<open>_is_immutable\<close>,
  \<^verbatim>\<open>_is_mutable\<close>, here without the leading underscore, which a name cannot
  begin with).

  Python values are dynamically typed, and byte containers are objects with an identity:
  a \<^verbatim>\<open>bytearray\<close> can be written through any reference to it, and a
  \<^verbatim>\<open>memoryview\<close> reads and writes the storage of the object it was taken from.
  So byte containers live in an explicit heap, and every function takes the heap and
  returns it with the objects it has created.
\<close>

subsection \<open>Values, objects, heap\<close>

type_synonym addr = nat
type_synonym byte = "8 word"

text \<open>The objects that own storage: \<^verbatim>\<open>bytes\<close> (immutable) and \<^verbatim>\<open>bytearray\<close>.\<close>

datatype obj =
    Bytes "byte list"
  | ByteArray "byte list"

text \<open>
  A \<^verbatim>\<open>str\<close> is its list of code points. A one-dimensional byte
  \<^verbatim>\<open>memoryview\<close> is the address of its exporter, the offset and length of the
  window it shows, and its \<^verbatim>\<open>readonly\<close> flag; it owns no storage. A view whose
  exporter address holds no object stands for a released view.
\<close>

datatype pyval =
    PNone
  | PInt int
  | PStr "nat list"
  | PList "pyval list"
  | PMemoryview addr nat nat bool
  | PRef addr

text \<open>The heap is the list of the objects created so far; an address is an index.\<close>

type_synonym heap = "obj list"

datatype error =
    UnicodeEncodeError
  | ValueError
  | TypeError
  | AttributeError
  | IndexError

type_synonym result = "(error + pyval) \<times> heap"

definition lookup :: "heap \<Rightarrow> addr \<Rightarrow> obj option" where
  "lookup h a = (if a < length h then Some (h ! a) else None)"

definition alloc :: "obj \<Rightarrow> heap \<Rightarrow> result" where
  "alloc x h = (Inr (PRef (length h)), h @ [x])"

fun data :: "obj \<Rightarrow> byte list" where
  "data (Bytes bs) = bs"
| "data (ByteArray bs) = bs"

subsection \<open>The built-in operations the module calls\<close>

text \<open>\<^verbatim>\<open>isinstance(s, bytes)\<close>, \<^verbatim>\<open>isinstance(s, str)\<close> and the like.\<close>

definition isinstance_bytes :: "heap \<Rightarrow> pyval \<Rightarrow> bool" where
  "isinstance_bytes h v =
     (case v of
        PRef a \<Rightarrow> (case lookup h a of Some (Bytes _) \<Rightarrow> True | _ \<Rightarrow> False)
      | _ \<Rightarrow> False)"

definition isinstance_bytearray :: "heap \<Rightarrow> pyval \<Rightarrow> bool" where
  "isinstance_bytearray h v =
     (case v of
        PRef a \<Rightarrow> (case lookup h a of Some (ByteArray _) \<Rightarrow> True | _ \<Rightarrow> False)
      | _ \<Rightarrow> False)"

definition isinstance_str :: "pyval \<Rightarrow> bool" where
  "isinstance_str v = (case v of PStr _ \<Rightarrow> True | _ \<Rightarrow> False)"

definition isinstance_memoryview :: "pyval \<Rightarrow> bool" where
  "isinstance_memoryview v = (case v of PMemoryview _ _ _ _ \<Rightarrow> True | _ \<Rightarrow> False)"

text \<open>
  The attribute \<^verbatim>\<open>data.readonly\<close>: the flag of a live view. Reading it from a
  released view raises \<^verbatim>\<open>ValueError\<close>; the other values have no such attribute.
\<close>

definition readonly :: "heap \<Rightarrow> pyval \<Rightarrow> error + bool" where
  "readonly h v =
     (case v of
        PMemoryview a off n ro \<Rightarrow>
          (case lookup h a of
             Some _ \<Rightarrow> Inr ro
           | None \<Rightarrow> Inl ValueError)
      | _ \<Rightarrow> Inl AttributeError)"

text \<open>
  The Latin-1 codec: code point \<open>N\<close> is the byte \<open>N\<close>; encoding raises
  \<^verbatim>\<open>UnicodeEncodeError\<close> at a code point above 255.
\<close>

definition latin1_encode :: "nat list \<Rightarrow> error + byte list" where
  "latin1_encode cs =
     (if list_all (\<lambda>c. c < 256) cs then Inr (map of_nat cs) else Inl UnicodeEncodeError)"

definition latin1_decode :: "byte list \<Rightarrow> nat list" where
  "latin1_decode bs = map unat bs"

text \<open>
  \<^verbatim>\<open>s.encode("latin-1")\<close>: only \<^verbatim>\<open>str\<close> has the method; the result is a new
  \<^verbatim>\<open>bytes\<close> object.
\<close>

definition encode_latin1 :: "pyval \<Rightarrow> heap \<Rightarrow> result" where
  "encode_latin1 s h =
     (case s of
        PStr cs \<Rightarrow>
          (case latin1_encode cs of
             Inl e \<Rightarrow> (Inl e, h)
           | Inr bs \<Rightarrow> alloc (Bytes bs) h)
      | _ \<Rightarrow> (Inl AttributeError, h))"

text \<open>
  \<^verbatim>\<open>bs.decode("latin-1")\<close>: \<^verbatim>\<open>bytes\<close> and \<^verbatim>\<open>bytearray\<close> have the method,
  a \<^verbatim>\<open>memoryview\<close> and the other values do not.
\<close>

definition decode_latin1 :: "pyval \<Rightarrow> heap \<Rightarrow> result" where
  "decode_latin1 bs h =
     (case bs of
        PRef a \<Rightarrow>
          (case lookup h a of
             Some x \<Rightarrow> (Inr (PStr (latin1_decode (data x))), h)
           | None \<Rightarrow> (Inl AttributeError, h))
      | _ \<Rightarrow> (Inl AttributeError, h))"

text \<open>
  The bytes of a list of integers, as \<^verbatim>\<open>bytes([...])\<close> reads them: the first
  element that is not an integer raises \<^verbatim>\<open>TypeError\<close>, the first integer outside
  \<^verbatim>\<open>range(0, 256)\<close> raises \<^verbatim>\<open>ValueError\<close>.
\<close>

fun bytes_from_list :: "pyval list \<Rightarrow> error + byte list" where
  "bytes_from_list [] = Inr []"
| "bytes_from_list (PInt i # xs) =
     (if 0 \<le> i \<and> i < 256 then
        (case bytes_from_list xs of
           Inl e \<Rightarrow> Inl e
         | Inr bs \<Rightarrow> Inr (word_of_int i # bs))
      else Inl ValueError)"
| "bytes_from_list (_ # xs) = Inl TypeError"

text \<open>The window of its exporter that a view shows; \<open>None\<close> for a released view.\<close>

definition view_contents :: "heap \<Rightarrow> addr \<Rightarrow> nat \<Rightarrow> nat \<Rightarrow> byte list option" where
  "view_contents h a off n =
     (case lookup h a of
        Some x \<Rightarrow> Some (take n (drop off (data x)))
      | None \<Rightarrow> None)"

text \<open>\<^verbatim>\<open>mv.tobytes()\<close>: a new \<^verbatim>\<open>bytes\<close> object holding what the view shows.\<close>

definition memoryview_tobytes :: "pyval \<Rightarrow> heap \<Rightarrow> result" where
  "memoryview_tobytes v h =
     (case v of
        PMemoryview a off n ro \<Rightarrow>
          (case view_contents h a off n of
             Some bs \<Rightarrow> alloc (Bytes bs) h
           | None \<Rightarrow> (Inl ValueError, h))
      | _ \<Rightarrow> (Inl AttributeError, h))"

text \<open>
  The constructor \<^verbatim>\<open>bytes(x)\<close> with one argument. A \<^verbatim>\<open>bytes\<close> argument is
  returned as it is; a \<^verbatim>\<open>bytearray\<close> or a view is copied into a new object; a list
  is read by \<open>bytes_from_list\<close>; an integer \<open>n\<close> gives \<open>n\<close> zero bytes.
\<close>

definition bytes_ctor :: "pyval \<Rightarrow> heap \<Rightarrow> result" where
  "bytes_ctor x h =
     (case x of
        PList xs \<Rightarrow>
          (case bytes_from_list xs of
             Inl e \<Rightarrow> (Inl e, h)
           | Inr bs \<Rightarrow> alloc (Bytes bs) h)
      | PRef a \<Rightarrow>
          (case lookup h a of
             Some (Bytes bs) \<Rightarrow> (Inr (PRef a), h)
           | Some (ByteArray bs) \<Rightarrow> alloc (Bytes bs) h
           | None \<Rightarrow> (Inl TypeError, h))
      | PMemoryview a off n ro \<Rightarrow> memoryview_tobytes x h
      | PInt n \<Rightarrow>
          (if n < 0 then (Inl ValueError, h) else alloc (Bytes (replicate (nat n) 0)) h)
      | PStr cs \<Rightarrow> (Inl TypeError, h)
      | PNone \<Rightarrow> (Inl TypeError, h))"

subsection \<open>Slicing\<close>

text \<open>
  A slice bound is an integer or \<^verbatim>\<open>None\<close>. A negative bound counts from the end;
  then every bound is clamped to \<open>[0, n]\<close>, and the slice is empty when the adjusted
  start is not below the adjusted end.
\<close>

definition adjust_index :: "int \<Rightarrow> nat \<Rightarrow> nat" where
  "adjust_index i n =
     (if i < 0 then (if i + int n < 0 then 0 else nat (i + int n))
      else if int n \<le> i then n
      else nat i)"

definition slice_bounds :: "pyval \<Rightarrow> pyval \<Rightarrow> nat \<Rightarrow> error + (nat \<times> nat)" where
  "slice_bounds start end n =
     (case start of
        PNone \<Rightarrow>
          (case end of
             PNone \<Rightarrow> Inr (0, n)
           | PInt j \<Rightarrow> Inr (0, adjust_index j n)
           | _ \<Rightarrow> Inl TypeError)
      | PInt i \<Rightarrow>
          (case end of
             PNone \<Rightarrow> Inr (adjust_index i n, n)
           | PInt j \<Rightarrow> Inr (adjust_index i n, adjust_index j n)
           | _ \<Rightarrow> Inl TypeError)
      | _ \<Rightarrow> Inl TypeError)"

definition slice_list :: "nat \<times> nat \<Rightarrow> 'a list \<Rightarrow> 'a list" where
  "slice_list lh xs = (case lh of (lo, hi) \<Rightarrow> take (hi - lo) (drop lo xs))"

text \<open>
  \<^verbatim>\<open>seq[start:end]\<close>. A slice of a \<^verbatim>\<open>bytearray\<close> is a new
  \<^verbatim>\<open>bytearray\<close>; a slice of a \<^verbatim>\<open>bytes\<close> object is a new \<^verbatim>\<open>bytes\<close>
  object, except that the slice of all of it is the object itself; a slice of a view is
  a narrower view of the same exporter.
\<close>

definition getslice :: "pyval \<Rightarrow> pyval \<Rightarrow> pyval \<Rightarrow> heap \<Rightarrow> result" where
  "getslice seq start end h =
     (case seq of
        PStr cs \<Rightarrow>
          (case slice_bounds start end (length cs) of
             Inl e \<Rightarrow> (Inl e, h)
           | Inr lh \<Rightarrow> (Inr (PStr (slice_list lh cs)), h))
      | PList xs \<Rightarrow>
          (case slice_bounds start end (length xs) of
             Inl e \<Rightarrow> (Inl e, h)
           | Inr lh \<Rightarrow> (Inr (PList (slice_list lh xs)), h))
      | PMemoryview a off n ro \<Rightarrow>
          (case view_contents h a off n of
             None \<Rightarrow> (Inl ValueError, h)
           | Some _ \<Rightarrow>
               (case slice_bounds start end n of
                  Inl e \<Rightarrow> (Inl e, h)
                | Inr (lo, hi) \<Rightarrow> (Inr (PMemoryview a (off + lo) (hi - lo) ro), h)))
      | PRef a \<Rightarrow>
          (case lookup h a of
             Some (Bytes bs) \<Rightarrow>
               (case slice_bounds start end (length bs) of
                  Inl e \<Rightarrow> (Inl e, h)
                | Inr lh \<Rightarrow>
                    (if slice_list lh bs = bs then (Inr (PRef a), h)
                     else alloc (Bytes (slice_list lh bs)) h))
           | Some (ByteArray bs) \<Rightarrow>
               (case slice_bounds start end (length bs) of
                  Inl e \<Rightarrow> (Inl e, h)
                | Inr lh \<Rightarrow> alloc (ByteArray (slice_list lh bs)) h)
           | None \<Rightarrow> (Inl TypeError, h))
      | PInt _ \<Rightarrow> (Inl TypeError, h)
      | PNone \<Rightarrow> (Inl TypeError, h))"

text \<open>
  \<^verbatim>\<open>seq[i]\<close> on a byte container: an integer in \<^verbatim>\<open>range(0, 256)\<close>; a negative
  index counts from the end, and an index outside the container raises
  \<^verbatim>\<open>IndexError\<close>.
\<close>

definition index_of :: "int \<Rightarrow> nat \<Rightarrow> nat option" where
  "index_of i n =
     (let j = (if i < 0 then i + int n else i)
      in if 0 \<le> j \<and> j < int n then Some (nat j) else None)"

definition getitem :: "pyval \<Rightarrow> pyval \<Rightarrow> heap \<Rightarrow> result" where
  "getitem seq i h =
     (case i of
        PInt k \<Rightarrow>
          (case seq of
             PRef a \<Rightarrow>
               (case lookup h a of
                  Some x \<Rightarrow>
                    (case index_of k (length (data x)) of
                       Some j \<Rightarrow> (Inr (PInt (uint (data x ! j))), h)
                     | None \<Rightarrow> (Inl IndexError, h))
                | None \<Rightarrow> (Inl TypeError, h))
           | PMemoryview a off n ro \<Rightarrow>
               (case view_contents h a off n of
                  Some bs \<Rightarrow>
                    (case index_of k n of
                       Some j \<Rightarrow> (Inr (PInt (uint (bs ! j))), h)
                     | None \<Rightarrow> (Inl IndexError, h))
                | None \<Rightarrow> (Inl ValueError, h))
           | _ \<Rightarrow> (Inl TypeError, h))
      | _ \<Rightarrow> (Inl TypeError, h))"

text \<open>
  \<^verbatim>\<open>seq[i] = v\<close>, the mutation of a byte container. A \<^verbatim>\<open>bytearray\<close> is
  written in place; a writable view writes the storage of its exporter; \<^verbatim>\<open>bytes\<close>
  and a read-only view refuse with \<^verbatim>\<open>TypeError\<close>. The heap is returned unchanged
  when the assignment raises; which error is reported when both the index and the value
  are out of range plays no part below.
\<close>

definition setitem :: "pyval \<Rightarrow> int \<Rightarrow> int \<Rightarrow> heap \<Rightarrow> result" where
  "setitem seq i v h =
     (case seq of
        PRef a \<Rightarrow>
          (case lookup h a of
             Some (ByteArray bs) \<Rightarrow>
               (case index_of i (length bs) of
                  None \<Rightarrow> (Inl IndexError, h)
                | Some j \<Rightarrow>
                    (if 0 \<le> v \<and> v < 256
                     then (Inr PNone, h[a := ByteArray (bs[j := word_of_int v])])
                     else (Inl ValueError, h)))
           | _ \<Rightarrow> (Inl TypeError, h))
      | PMemoryview a off n ro \<Rightarrow>
          (case lookup h a of
             None \<Rightarrow> (Inl ValueError, h)
           | Some (Bytes bs) \<Rightarrow> (Inl TypeError, h)
           | Some (ByteArray bs) \<Rightarrow>
               (if ro then (Inl TypeError, h)
                else
                  (case index_of i n of
                     None \<Rightarrow> (Inl IndexError, h)
                   | Some j \<Rightarrow>
                       (if 0 \<le> v \<and> v < 256
                        then (Inr PNone, h[a := ByteArray (bs[off + j := word_of_int v])])
                        else (Inl ValueError, h)))))
      | _ \<Rightarrow> (Inl TypeError, h))"

text \<open>A run of assignments to one container; an assignment that raises changes nothing.\<close>

fun setitems :: "pyval \<Rightarrow> (int \<times> int) list \<Rightarrow> heap \<Rightarrow> heap" where
  "setitems seq [] h = h"
| "setitems seq ((i, v) # ws) h = setitems seq ws (snd (setitem seq i v h))"

text \<open>\<^verbatim>\<open>bytearray(x)\<close> of a byte container: a new, writable object with its bytes.\<close>

definition bytearray_ctor :: "pyval \<Rightarrow> heap \<Rightarrow> result" where
  "bytearray_ctor x h =
     (case x of
        PRef a \<Rightarrow>
          (case lookup h a of
             Some y \<Rightarrow> alloc (ByteArray (data y)) h
           | None \<Rightarrow> (Inl TypeError, h))
      | PMemoryview a off n ro \<Rightarrow>
          (case view_contents h a off n of
             Some bs \<Rightarrow> alloc (ByteArray bs) h
           | None \<Rightarrow> (Inl ValueError, h))
      | _ \<Rightarrow> (Inl TypeError, h))"

text \<open>
  What a byte container holds, whichever kind it is: the bytes of a \<^verbatim>\<open>bytes\<close> or
  \<^verbatim>\<open>bytearray\<close> object, the window of a live view.
\<close>

definition contents :: "heap \<Rightarrow> pyval \<Rightarrow> byte list option" where
  "contents h v =
     (case v of
        PRef a \<Rightarrow> (case lookup h a of Some x \<Rightarrow> Some (data x) | None \<Rightarrow> None)
      | PMemoryview a off n ro \<Rightarrow> view_contents h a off n
      | _ \<Rightarrow> None)"

subsection \<open>The module's functions (Python 3 branch)\<close>

text \<open>\<^verbatim>\<open>def b(s): return s.encode("latin-1")\<close>\<close>

definition b :: "pyval \<Rightarrow> heap \<Rightarrow> result" where
  "b s h = encode_latin1 s h"

text \<open>\<^verbatim>\<open>def bchr(s): return bytes([s])\<close>\<close>

definition bchr :: "pyval \<Rightarrow> heap \<Rightarrow> result" where
  "bchr s h = bytes_ctor (PList [s]) h"

text \<open>\<^verbatim>\<open>def bord(s): return s\<close>\<close>

definition bord :: "pyval \<Rightarrow> pyval" where
  "bord s = s"

text \<open>
  \<^verbatim>\<open>
  def tobytes(s):
      if isinstance(s,bytes):
          return s
      else:
          if isinstance(s,str):
              return s.encode("latin-1")
          else:
              return bytes([s])
  \<close>
\<close>

definition tobytes :: "pyval \<Rightarrow> heap \<Rightarrow> result" where
  "tobytes s h =
     (if isinstance_bytes h s then (Inr s, h)
      else if isinstance_str s then encode_latin1 s h
      else bytes_ctor (PList [s]) h)"

text \<open>\<^verbatim>\<open>def tostr(bs): return bs.decode("latin-1")\<close>\<close>

definition tostr :: "pyval \<Rightarrow> heap \<Rightarrow> result" where
  "tostr bs h = decode_latin1 bs h"

text \<open>\<^verbatim>\<open>def byte_string(s): return isinstance(s, bytes)\<close>\<close>

definition byte_string :: "pyval \<Rightarrow> heap \<Rightarrow> bool" where
  "byte_string s h = isinstance_bytes h s"

text \<open>
  \<^verbatim>\<open>
  def _copy_bytes(start, end, seq):
      if isinstance(seq, _memoryview):
          return seq[start:end].tobytes()
      elif isinstance(seq, bytearray):
          return bytes(seq[start:end])
      else:
          return seq[start:end]
  \<close>
\<close>

definition copy_bytes :: "pyval \<Rightarrow> pyval \<Rightarrow> pyval \<Rightarrow> heap \<Rightarrow> result" where
  "copy_bytes start end seq h =
     (if isinstance_memoryview seq then
        (case getslice seq start end h of
           (Inl e, h1) \<Rightarrow> (Inl e, h1)
         | (Inr v, h1) \<Rightarrow> memoryview_tobytes v h1)
      else if isinstance_bytearray h seq then
        (case getslice seq start end h of
           (Inl e, h1) \<Rightarrow> (Inl e, h1)
         | (Inr v, h1) \<Rightarrow> bytes_ctor v h1)
      else getslice seq start end h)"

text \<open>
  \<^verbatim>\<open>
  def _is_immutable(data):
      if byte_string(data):
          return True
      elif isinstance(data, _memoryview) and data.readonly:
          return True
      return False
  \<close>
\<close>

text \<open>
  The \<^verbatim>\<open>and\<close> reads \<^verbatim>\<open>data.readonly\<close> only of a view, and what that read
  raises is raised by the function.
\<close>

definition is_immutable :: "pyval \<Rightarrow> heap \<Rightarrow> error + bool" where
  "is_immutable d h =
     (if byte_string d h then Inr True
      else if isinstance_memoryview d then
        (case readonly h d of
           Inl e \<Rightarrow> Inl e
         | Inr ro \<Rightarrow> (if ro then Inr True else Inr False))
      else Inr False)"

text \<open>\<^verbatim>\<open>def _is_mutable(data): return not _is_immutable(data)\<close>\<close>

definition is_mutable :: "pyval \<Rightarrow> heap \<Rightarrow> error + bool" where
  "is_mutable d h =
     (case is_immutable d h of
        Inl e \<Rightarrow> Inl e
      | Inr r \<Rightarrow> Inr (\<not> r))"

subsection \<open>The containers the claims speak of\<close>

text \<open>
  A byte container as Python can build it: an object of the heap, or a view of a live
  exporter whose window lies inside it (a view of a \<^verbatim>\<open>bytes\<close> object is
  read-only).
\<close>

definition byte_container :: "heap \<Rightarrow> pyval \<Rightarrow> bool" where
  "byte_container h v =
     (case v of
        PRef a \<Rightarrow> a < length h
      | PMemoryview a off n ro \<Rightarrow>
          (case lookup h a of
             Some (Bytes bs) \<Rightarrow> ro \<and> off + n \<le> length bs
           | Some (ByteArray bs) \<Rightarrow> off + n \<le> length bs
           | None \<Rightarrow> False)
      | _ \<Rightarrow> False)"

text \<open>A mutable buffer: a \<^verbatim>\<open>bytearray\<close>, or a writable view of one.\<close>

definition mutable_buffer :: "heap \<Rightarrow> pyval \<Rightarrow> bool" where
  "mutable_buffer h v =
     (case v of
        PRef a \<Rightarrow> isinstance_bytearray h v
      | PMemoryview a off n ro \<Rightarrow>
          (case lookup h a of
             Some (ByteArray bs) \<Rightarrow> \<not> ro \<and> off + n \<le> length bs
           | _ \<Rightarrow> False)
      | _ \<Rightarrow> False)"

text \<open>The address whose storage a container reads and writes.\<close>

fun storage :: "pyval \<Rightarrow> addr option" where
  "storage (PRef a) = Some a"
| "storage (PMemoryview a off n ro) = Some a"
| "storage _ = None"

section \<open>Properties\<close>

subsection \<open>Auxiliary facts\<close>

lemma lookup_append_new: "lookup (h @ [x]) (length h) = Some x"
  by (simp add: lookup_def)

lemma uint_byte: "0 \<le> c \<Longrightarrow> c < 256 \<Longrightarrow> uint (word_of_int c :: byte) = c"
  by (simp add: uint_word_of_int take_bit_int_eq_self)

lemma unat_byte: "c < 256 \<Longrightarrow> unat (of_nat c :: byte) = c"
  by (simp add: unat_of_nat take_bit_nat_eq_self)

lemma latin1_roundtrip:
  "list_all (\<lambda>c. c < 256) cs \<Longrightarrow> map unat (map of_nat cs :: byte list) = cs"
  by (induction cs) (simp_all add: unat_byte)

lemma latin1_roundtrip_comp:
  "list_all (\<lambda>c. c < 256) cs \<Longrightarrow> map (unat \<circ> (of_nat :: nat \<Rightarrow> byte)) cs = cs"
  using latin1_roundtrip [of cs] by simp

lemma list_all_byte: "list_all (\<lambda>c. c < 256) cs \<longleftrightarrow> (\<forall>c\<in>set cs. c \<le> (255::nat))"
  by (auto simp: list_all_iff)

subsection \<open>Classification of a text value\<close>

text \<open>
  Claim C1 says that a \<^verbatim>\<open>str\<close> is rejected by both predicates. It is rejected by
  \<^verbatim>\<open>_is_immutable\<close> only: \<^verbatim>\<open>_is_mutable\<close> is the negation of
  \<^verbatim>\<open>_is_immutable\<close>, so it answers \<^verbatim>\<open>True\<close> for the text \<^verbatim>\<open>"ABC"\<close>.
\<close>

theorem text_rejected_by_both_counterexample:
  "\<not> (is_immutable (PStr [65, 66, 67]) [] = Inr False \<and>
      is_mutable (PStr [65, 66, 67]) [] = Inr False)"
  by (simp add: is_mutable_def is_immutable_def byte_string_def isinstance_bytes_def
      isinstance_memoryview_def)

text \<open>
  Claim C1, amended: for every text value \<open>t\<close>, \<^verbatim>\<open>_is_immutable(t)\<close> is
  \<^verbatim>\<open>False\<close> and \<^verbatim>\<open>_is_mutable(t)\<close>, its negation, is \<^verbatim>\<open>True\<close>.
\<close>

theorem text_is_immutable_False_is_mutable_True:
  "is_immutable (PStr t) h = Inr False \<and> is_mutable (PStr t) h = Inr True"
  by (simp add: is_mutable_def is_immutable_def byte_string_def isinstance_bytes_def
      isinstance_memoryview_def)

subsection \<open>\<^verbatim>\<open>tobytes\<close> on a sequence of byte-like elements\<close>

text \<open>
  Claim C2 says that \<^verbatim>\<open>tobytes\<close> of a value that is neither \<^verbatim>\<open>str\<close> nor
  \<^verbatim>\<open>bytes\<close>, such as a \<^verbatim>\<open>bytearray\<close> or a list of small integers, is the
  concatenation of the single-byte forms of its elements. The last branch evaluates
  \<^verbatim>\<open>bytes([s])\<close>, the bytes of the one-element list holding \<open>s\<close> itself, and that
  raises \<^verbatim>\<open>TypeError\<close> when \<open>s\<close> is a container: on
  \<^verbatim>\<open>bytearray(b"\x01\x02")\<close> and on \<^verbatim>\<open>[65, 66]\<close> nothing is returned.
\<close>

theorem tobytes_sequence_raises:
  "tobytes (PRef 0) [ByteArray [1, 2]] = (Inl TypeError, [ByteArray [1, 2]]) \<and>
   tobytes (PList [PInt 65, PInt 66]) [] = (Inl TypeError, [])"
  by (simp add: tobytes_def isinstance_bytes_def isinstance_str_def lookup_def bytes_ctor_def)

subsection \<open>Text to bytes\<close>

text \<open>
  Claim C4: on a text value \<open>s\<close>, \<^verbatim>\<open>b\<close> and \<^verbatim>\<open>tobytes\<close> raise
  \<^verbatim>\<open>UnicodeEncodeError\<close> exactly when \<open>s\<close> has a code point above 255; otherwise
  both return a new \<^verbatim>\<open>bytes\<close> object whose byte at each position has the value of
  the code point at that position.
\<close>

theorem text_to_bytes_latin1:
  "((\<exists>c\<in>set s. 255 < c) \<longrightarrow>
      b (PStr s) h = (Inl UnicodeEncodeError, h) \<and>
      tobytes (PStr s) h = (Inl UnicodeEncodeError, h)) \<and>
   ((\<forall>c\<in>set s. c \<le> 255) \<longrightarrow>
      (\<exists>bs. b (PStr s) h = (Inr (PRef (length h)), h @ [Bytes bs]) \<and>
         tobytes (PStr s) h = (Inr (PRef (length h)), h @ [Bytes bs]) \<and>
         map unat bs = s))"
proof (cases "list_all (\<lambda>c. c < 256) s")
  case True
  then have "\<forall>c\<in>set s. c \<le> 255" by (simp add: list_all_byte)
  moreover have "map unat (map of_nat s :: byte list) = s"
    using True by (rule latin1_roundtrip)
  ultimately show ?thesis
    using True
    by (fastforce simp: b_def tobytes_def encode_latin1_def latin1_encode_def alloc_def
        isinstance_bytes_def isinstance_str_def)
next
  case False
  then obtain c where "c \<in> set s" and "\<not> c < 256" by (auto simp: list_all_iff)
  then have "\<exists>c\<in>set s. 255 < c" by (intro bexI [of _ c]) simp_all
  then show ?thesis
    using False
    by (fastforce simp: b_def tobytes_def encode_latin1_def latin1_encode_def
        isinstance_bytes_def isinstance_str_def)
qed

theorem text_to_bytes_latin1_witness:
  "b (PStr [65, 256]) [] = (Inl UnicodeEncodeError, []) \<and>
   tobytes (PStr [65, 256]) [] = (Inl UnicodeEncodeError, []) \<and>
   (\<exists>bs. b (PStr [65, 255]) [] = (Inr (PRef 0), [Bytes bs]) \<and>
      tobytes (PStr [65, 255]) [] = (Inr (PRef 0), [Bytes bs]) \<and> map unat bs = [65, 255])"
  using text_to_bytes_latin1 [of "[65, 256]" "[]"] text_to_bytes_latin1 [of "[65, 255]" "[]"]
  by simp

subsection \<open>One byte from an integer\<close>

text \<open>
  Claim C5: \<^verbatim>\<open>bchr(c)\<close> raises \<^verbatim>\<open>ValueError\<close> for every integer \<open>c\<close> outside
  \<open>[0, 255]\<close>, and for every \<open>c\<close> inside returns a \<^verbatim>\<open>bytes\<close> object of length 1
  whose element has the value \<open>c\<close>.
\<close>

theorem bchr_range:
  "(c < 0 \<or> 255 < c \<longrightarrow> bchr (PInt c) h = (Inl ValueError, h)) \<and>
   (0 \<le> c \<and> c \<le> 255 \<longrightarrow>
      (\<exists>r h' w. bchr (PInt c) h = (Inr r, h') \<and> isinstance_bytes h' r \<and>
         contents h' r = Some [w] \<and> uint w = c))"
  by (auto simp: bchr_def bytes_ctor_def alloc_def isinstance_bytes_def contents_def
      lookup_append_new uint_byte)

theorem bchr_range_witness:
  "bchr (PInt 256) [] = (Inl ValueError, []) \<and>
   bchr (PInt (- 1)) [] = (Inl ValueError, []) \<and>
   (\<exists>r h' w. bchr (PInt 0) [] = (Inr r, h') \<and> isinstance_bytes h' r \<and>
      contents h' r = Some [w] \<and> uint w = 0) \<and>
   (\<exists>r h' w. bchr (PInt 255) [] = (Inr r, h') \<and> isinstance_bytes h' r \<and>
      contents h' r = Some [w] \<and> uint w = 255)"
  using bchr_range [of 256 "[]"] bchr_range [of "- 1" "[]"]
    bchr_range [of 0 "[]"] bchr_range [of 255 "[]"]
  by simp

text \<open>
  Claim C6: for every integer \<open>c\<close> in \<open>[0, 255]\<close>, \<^verbatim>\<open>bord(bchr(c)[0])\<close> is \<open>c\<close>.
\<close>

theorem bord_bchr_roundtrip:
  "0 \<le> c \<Longrightarrow> c \<le> 255 \<Longrightarrow>
   \<exists>r h' e. bchr (PInt c) h = (Inr r, h') \<and> getitem r (PInt 0) h' = (Inr e, h') \<and>
     bord e = PInt c"
  by (simp add: bchr_def bytes_ctor_def alloc_def getitem_def lookup_append_new index_of_def
      bord_def uint_byte)

theorem bord_bchr_roundtrip_witness:
  "(0::int) \<le> 200 \<and> (200::int) \<le> 255 \<and>
   (\<exists>r h' e. bchr (PInt 200) [] = (Inr r, h') \<and> getitem r (PInt 0) h' = (Inr e, h') \<and>
     bord e = PInt 200)"
  using bord_bchr_roundtrip [of 200 "[]"] by simp

subsection \<open>Text, bytes and back\<close>

text \<open>
  Claim C7 says that \<^verbatim>\<open>tostr(tobytes(s))\<close> is \<open>s\<close> for every text value with
  code points in \<open>[0, 255]\<close>, and that \<^verbatim>\<open>tostr\<close> fails on no byte buffer. The
  second part stops at a view: \<^verbatim>\<open>tostr\<close> calls \<^verbatim>\<open>bs.decode("latin-1")\<close>, a
  \<^verbatim>\<open>memoryview\<close> has no \<^verbatim>\<open>decode\<close> method, and so on the read-only view of
  the bytes \<open>[0x41, 0x42]\<close>, which \<^verbatim>\<open>_is_immutable\<close> accepts as an immutable
  buffer, \<^verbatim>\<open>tostr\<close> raises \<^verbatim>\<open>AttributeError\<close>. The same happens on a writable
  view of a \<^verbatim>\<open>bytearray\<close>.
\<close>

theorem tostr_never_fails_counterexample:
  "byte_container [Bytes [0x41, 0x42]] (PMemoryview 0 0 2 True) \<and>
   is_immutable (PMemoryview 0 0 2 True) [Bytes [0x41, 0x42]] = Inr True \<and>
   contents [Bytes [0x41, 0x42]] (PMemoryview 0 0 2 True) = Some [0x41, 0x42] \<and>
   tostr (PMemoryview 0 0 2 True) [Bytes [0x41, 0x42]] =
     (Inl AttributeError, [Bytes [0x41, 0x42]]) \<and>
   mutable_buffer [ByteArray [0x41, 0x42]] (PMemoryview 0 0 2 False) \<and>
   tostr (PMemoryview 0 0 2 False) [ByteArray [0x41, 0x42]] =
     (Inl AttributeError, [ByteArray [0x41, 0x42]])"
  by (simp add: byte_container_def mutable_buffer_def is_immutable_def byte_string_def
      isinstance_bytes_def isinstance_memoryview_def readonly_def contents_def
      view_contents_def lookup_def tostr_def decode_latin1_def)

text \<open>
  Claim C7, amended: for every text value \<open>s\<close> with all code points in \<open>[0, 255]\<close>,
  \<^verbatim>\<open>tostr(tobytes(s))\<close> is \<open>s\<close>; \<^verbatim>\<open>tobytes("ABC")\<close> is the \<^verbatim>\<open>bytes\<close> object
  \<open>[0x41, 0x42, 0x43]\<close> and \<^verbatim>\<open>tostr\<close> of it is \<^verbatim>\<open>"ABC"\<close>; \<^verbatim>\<open>tostr\<close>
  raises on no \<^verbatim>\<open>bytes\<close> and no \<^verbatim>\<open>bytearray\<close> object, whatever its bytes are,
  and returns the text whose code points are the byte values; on every
  \<^verbatim>\<open>memoryview\<close> it raises \<^verbatim>\<open>AttributeError\<close>.
\<close>

theorem tostr_tobytes_roundtrip:
  "((\<forall>c\<in>set s. c \<le> 255) \<longrightarrow>
      (\<exists>r h'. tobytes (PStr s) h = (Inr r, h') \<and> tostr r h' = (Inr (PStr s), h'))) \<and>
   (\<exists>r h'. tobytes (PStr (map of_char ''ABC'')) h = (Inr r, h') \<and>
      isinstance_bytes h' r \<and> contents h' r = Some [0x41, 0x42, 0x43] \<and>
      tostr r h' = (Inr (PStr (map of_char ''ABC'')), h')) \<and>
   (\<forall>a x. lookup h a = Some x \<longrightarrow>
      tostr (PRef a) h = (Inr (PStr (map unat (data x))), h)) \<and>
   (\<forall>a off n ro. tostr (PMemoryview a off n ro) h = (Inl AttributeError, h))"
proof (intro conjI impI allI)
  assume "\<forall>c\<in>set s. c \<le> 255"
  then have ok: "list_all (\<lambda>c. c < 256) s" by (simp add: list_all_byte)
  then show "\<exists>r h'. tobytes (PStr s) h = (Inr r, h') \<and> tostr r h' = (Inr (PStr s), h')"
    by (simp add: tobytes_def encode_latin1_def latin1_encode_def alloc_def
        isinstance_bytes_def isinstance_str_def tostr_def decode_latin1_def
        lookup_append_new latin1_decode_def latin1_roundtrip_comp)
next
  show "\<exists>r h'. tobytes (PStr (map of_char ''ABC'')) h = (Inr r, h') \<and>
      isinstance_bytes h' r \<and> contents h' r = Some [0x41, 0x42, 0x43] \<and>
      tostr r h' = (Inr (PStr (map of_char ''ABC'')), h')"
    by (simp add: tobytes_def encode_latin1_def latin1_encode_def alloc_def
        isinstance_bytes_def isinstance_str_def tostr_def decode_latin1_def
        lookup_append_new latin1_decode_def contents_def)
next
  fix a x
  assume "lookup h a = Some x"
  then show "tostr (PRef a) h = (Inr (PStr (map unat (data x))), h)"
    by (simp add: tostr_def decode_latin1_def latin1_decode_def)
next
  fix a off n ro
  show "tostr (PMemoryview a off n ro) h = (Inl AttributeError, h)"
    by (simp add: tostr_def decode_latin1_def)
qed

theorem tostr_tobytes_roundtrip_witness:
  "list_all (\<lambda>c. c \<le> (255::nat)) [104, 233, 255] \<and>
   (\<exists>r h'. tobytes (PStr [104, 233, 255]) [] = (Inr r, h') \<and>
      tostr r h' = (Inr (PStr [104, 233, 255]), h')) \<and>
   lookup [ByteArray [0, 128, 255]] 0 = Some (ByteArray [0, 128, 255]) \<and>
   tostr (PRef 0) [ByteArray [0, 128, 255]] = (Inr (PStr [0, 128, 255]), [ByteArray [0, 128, 255]]) \<and>
   tostr (PMemoryview 0 1 2 False) [ByteArray [0, 128, 255]] =
     (Inl AttributeError, [ByteArray [0, 128, 255]])"
  using tostr_tobytes_roundtrip [of "[104, 233, 255]" "[]"]
    tostr_tobytes_roundtrip [of "[]" "[ByteArray [0, 128, 255]]"]
  by (simp add: lookup_def)

subsection \<open>\<^verbatim>\<open>tobytes\<close> on \<^verbatim>\<open>bytes\<close> and on an integer\<close>

text \<open>
  Claim C8: for every \<^verbatim>\<open>bytes\<close> object, \<^verbatim>\<open>tobytes\<close> returns the reference it
  was given and creates no object (the heap is the same), so applying it again returns
  the same reference again.
\<close>

theorem tobytes_identity:
  "isinstance_bytes h s \<Longrightarrow>
   tobytes s h = (Inr s, h) \<and>
   (\<exists>r h'. tobytes s h = (Inr r, h') \<and> tobytes r h' = (Inr s, h))"
  by (simp add: tobytes_def)

theorem tobytes_identity_witness:
  "isinstance_bytes [Bytes [1, 2, 3]] (PRef 0) \<and>
   tobytes (PRef 0) [Bytes [1, 2, 3]] = (Inr (PRef 0), [Bytes [1, 2, 3]])"
  using tobytes_identity [of "[Bytes [1, 2, 3]]" "PRef 0"]
  by (simp add: isinstance_bytes_def lookup_def)

text \<open>
  Claim C10: \<^verbatim>\<open>tobytes\<close> accepts a bare integer \<open>c\<close>: it does what
  \<^verbatim>\<open>bchr(c)\<close> does, which for \<open>c\<close> in \<open>[0, 255]\<close> is a new \<^verbatim>\<open>bytes\<close> object
  holding the one byte \<open>c\<close>, and for every other integer is \<^verbatim>\<open>ValueError\<close>.
\<close>

theorem tobytes_int:
  "tobytes (PInt c) h = bchr (PInt c) h \<and>
   (0 \<le> c \<and> c \<le> 255 \<longrightarrow>
      tobytes (PInt c) h = (Inr (PRef (length h)), h @ [Bytes [word_of_int c]]) \<and>
      uint (word_of_int c :: byte) = c) \<and>
   (c < 0 \<or> 255 < c \<longrightarrow> tobytes (PInt c) h = (Inl ValueError, h))"
  by (auto simp: tobytes_def bchr_def bytes_ctor_def alloc_def isinstance_bytes_def
      isinstance_str_def uint_byte)

theorem tobytes_int_witness:
  "tobytes (PInt 65) [] = bchr (PInt 65) [] \<and>
   tobytes (PInt 65) [] = (Inr (PRef 0), [Bytes [65]]) \<and>
   tobytes (PInt 256) [] = (Inl ValueError, []) \<and>
   tobytes (PInt (- 1)) [] = (Inl ValueError, [])"
  using tobytes_int [of 65 "[]"] tobytes_int [of 256 "[]"] tobytes_int [of "- 1" "[]"]
  by (simp add: bchr_def bytes_ctor_def alloc_def)

subsection \<open>Copying a range\<close>

lemma lookup_append_old: "a < length h \<Longrightarrow> lookup (h @ xs) a = lookup h a"
  by (simp add: lookup_def nth_append)

lemma lookup_Some_less: "lookup h a = Some x \<Longrightarrow> a < length h"
  by (simp add: lookup_def split: if_splits)

lemma adjust_index_le: "adjust_index i n \<le> n"
  by (auto simp: adjust_index_def)

lemma copy_bytes_of_bytes:
  assumes "lookup h a = Some (Bytes bs)"
  shows "\<exists>r h'. copy_bytes (PInt i) (PInt j) (PRef a) h = (Inr r, h') \<and>
     isinstance_bytes h' r \<and>
     contents h' r =
       Some (slice_list (adjust_index i (length bs), adjust_index j (length bs)) bs)"
  using assms
  by (simp add: copy_bytes_def isinstance_memoryview_def isinstance_bytearray_def
      getslice_def slice_bounds_def alloc_def isinstance_bytes_def contents_def
      lookup_append_new)

lemma copy_bytes_of_bytearray:
  assumes "lookup h a = Some (ByteArray bs)"
  shows "copy_bytes (PInt i) (PInt j) (PRef a) h =
     (Inr (PRef (Suc (length h))),
      h @ [ByteArray (slice_list (adjust_index i (length bs), adjust_index j (length bs)) bs),
           Bytes (slice_list (adjust_index i (length bs), adjust_index j (length bs)) bs)])"
  using assms
  by (simp add: copy_bytes_def isinstance_memoryview_def isinstance_bytearray_def
      getslice_def slice_bounds_def alloc_def bytes_ctor_def lookup_append_new)

lemma take_drop_window:
  "hi \<le> n \<Longrightarrow> take (hi - lo) (drop (off + lo) ys) = take (hi - lo) (drop lo (take n (drop off ys)))"
  by (simp add: drop_take add.commute min_def)

lemma copy_bytes_of_memoryview:
  assumes "lookup h a = Some x"
  shows "copy_bytes (PInt i) (PInt j) (PMemoryview a off n ro) h =
     (Inr (PRef (length h)),
      h @ [Bytes (slice_list (adjust_index i n, adjust_index j n) (take n (drop off (data x))))])"
  using assms take_drop_window [OF adjust_index_le [of j n], of "adjust_index i n" off "data x"]
  by (simp add: copy_bytes_def isinstance_memoryview_def getslice_def slice_bounds_def
      view_contents_def memoryview_tobytes_def alloc_def slice_list_def)

lemma copy_bytes_of_container:
  assumes "byte_container h seq" and "contents h seq = Some xs"
  shows "\<exists>r h'. copy_bytes (PInt i) (PInt j) seq h = (Inr r, h') \<and>
     isinstance_bytes h' r \<and>
     contents h' r =
       Some (slice_list (adjust_index i (length xs), adjust_index j (length xs)) xs)"
proof (cases seq)
  case (PRef a)
  with assms obtain x where x: "lookup h a = Some x" and xs: "xs = data x"
    by (auto simp: contents_def split: option.splits)
  show ?thesis
  proof (cases x)
    case (Bytes bs)
    with x xs PRef copy_bytes_of_bytes [of h a bs i j] show ?thesis by simp
  next
    case (ByteArray bs)
    with x xs PRef copy_bytes_of_bytearray [of h a bs i j] show ?thesis
      by (simp add: isinstance_bytes_def contents_def lookup_def nth_append)
  qed
next
  case (PMemoryview a off n ro)
  with assms obtain x where x: "lookup h a = Some x" and xs: "xs = take n (drop off (data x))"
    by (auto simp: contents_def view_contents_def split: option.splits)
  from assms(1) PMemoryview x have "off + n \<le> length (data x)"
    by (cases x) (simp_all add: byte_container_def)
  then have "length xs = n" using xs by simp
  with x xs PMemoryview copy_bytes_of_memoryview [of h a x i j off n ro] show ?thesis
    by (simp add: isinstance_bytes_def contents_def lookup_append_new)
qed (use assms in \<open>simp_all add: byte_container_def\<close>)

lemma slice_in_range:
  "0 \<le> i \<Longrightarrow> i \<le> j \<Longrightarrow> j \<le> int (length xs) \<Longrightarrow>
   slice_list (adjust_index i (length xs), adjust_index j (length xs)) xs =
     take (nat (j - i)) (drop (nat i) xs)"
  by (auto simp: slice_list_def adjust_index_def nat_diff_distrib)

lemma slice_clamped:
  "0 \<le> i \<Longrightarrow> int (length xs) \<le> j \<Longrightarrow>
   slice_list (adjust_index i (length xs), adjust_index j (length xs)) xs = drop (nat i) xs"
  by (auto simp: slice_list_def adjust_index_def)

lemma slice_reordered:
  "0 \<le> j \<Longrightarrow> j \<le> i \<Longrightarrow>
   slice_list (adjust_index i (length xs), adjust_index j (length xs)) xs = []"
  by (auto simp: slice_list_def adjust_index_def)

lemma slice_general:
  "slice_list (adjust_index i (length xs), adjust_index j (length xs)) xs =
     (let n = int (length xs);
          lo = (if i < 0 then max 0 (i + n) else min i n);
          hi = (if j < 0 then max 0 (j + n) else min j n)
      in take (nat (hi - lo)) (drop (nat lo) xs))"
proof -
  define lo where "lo = (if i < 0 then max 0 (i + int (length xs)) else min i (int (length xs)))"
  define hi where "hi = (if j < 0 then max 0 (j + int (length xs)) else min j (int (length xs)))"
  have a: "adjust_index i (length xs) = nat lo" and b: "adjust_index j (length xs) = nat hi"
    by (auto simp: adjust_index_def lo_def hi_def)
  have "0 \<le> lo" by (simp add: lo_def)
  then have c: "nat hi - nat lo = nat (hi - lo)" by arith
  have "slice_list (nat lo, nat hi) xs = take (nat (hi - lo)) (drop (nat lo) xs)"
    by (simp only: slice_list_def prod.case c)
  then show ?thesis
    by (simp only: a b Let_def lo_def hi_def)
qed


text \<open>
  Claim C3 says that \<^verbatim>\<open>_copy_bytes\<close> never raises on out-of-range bounds, clamps a
  bound beyond the length, and returns the empty buffer for reordered and for negative
  bounds. A negative bound is not out of range for a Python slice: it counts from the
  end. On \<open>[0x10, 0x20, 0x30, 0x40]\<close> the bounds \<open>(-2, 4)\<close> give \<open>[0x30, 0x40]\<close>
  and the bounds \<open>(-3, -1)\<close> give \<open>[0x20, 0x30]\<close>.
\<close>

theorem negative_bounds_empty_counterexample:
  "copy_bytes (PInt (- 2)) (PInt 4) (PRef 0) [Bytes [0x10, 0x20, 0x30, 0x40]] =
     (Inr (PRef 1), [Bytes [0x10, 0x20, 0x30, 0x40], Bytes [0x30, 0x40]]) \<and>
   copy_bytes (PInt (- 3)) (PInt (- 1)) (PRef 0) [Bytes [0x10, 0x20, 0x30, 0x40]] =
     (Inr (PRef 1), [Bytes [0x10, 0x20, 0x30, 0x40], Bytes [0x20, 0x30]]) \<and>
   contents [Bytes [0x10, 0x20, 0x30, 0x40], Bytes [0x30, 0x40]] (PRef 1) \<noteq> Some [] \<and>
   contents [Bytes [0x10, 0x20, 0x30, 0x40], Bytes [0x20, 0x30]] (PRef 1) \<noteq> Some []"
  by (simp add: copy_bytes_def isinstance_memoryview_def isinstance_bytearray_def
      getslice_def slice_bounds_def adjust_index_def slice_list_def alloc_def lookup_def
      contents_def)

text \<open>
  Claim C3, amended: on every byte container (\<^verbatim>\<open>bytes\<close>, \<^verbatim>\<open>bytearray\<close>,
  live view) and every pair of integer bounds, \<^verbatim>\<open>_copy_bytes\<close> raises nothing and
  returns a \<^verbatim>\<open>bytes\<close> object. A negative bound counts from the end (the length is
  added to it, and a sum still negative becomes 0); a bound beyond the length becomes
  the length; the result is the range between the adjusted bounds, empty when the
  adjusted start is not below the adjusted end. So bounds \<open>0 \<le> start \<le> end \<le> length\<close>
  give exactly \<open>[start, end)\<close>, an end beyond the length gives everything from
  \<open>start\<close> on, and non-negative bounds in the wrong order give the empty buffer.
\<close>

theorem copy_bytes_slice_semantics:
  assumes "byte_container h seq" and "contents h seq = Some xs"
  shows "\<exists>r h' ys. copy_bytes (PInt i) (PInt j) seq h = (Inr r, h') \<and>
     isinstance_bytes h' r \<and> contents h' r = Some ys \<and>
     ys = (let n = int (length xs);
               lo = (if i < 0 then max 0 (i + n) else min i n);
               hi = (if j < 0 then max 0 (j + n) else min j n)
           in take (nat (hi - lo)) (drop (nat lo) xs)) \<and>
     (0 \<le> i \<and> i \<le> j \<and> j \<le> int (length xs) \<longrightarrow> ys = take (nat (j - i)) (drop (nat i) xs)) \<and>
     (0 \<le> i \<and> int (length xs) \<le> j \<longrightarrow> ys = drop (nat i) xs) \<and>
     (0 \<le> j \<and> j \<le> i \<longrightarrow> ys = [])"
proof -
  let ?ys = "slice_list (adjust_index i (length xs), adjust_index j (length xs)) xs"
  from copy_bytes_of_container [OF assms, of i j]
  obtain r h' where "copy_bytes (PInt i) (PInt j) seq h = (Inr r, h')"
    and "isinstance_bytes h' r" and "contents h' r = Some ?ys"
    by blast
  moreover note slice_general [of i xs j]
  moreover have "0 \<le> i \<and> i \<le> j \<and> j \<le> int (length xs) \<longrightarrow> ?ys = take (nat (j - i)) (drop (nat i) xs)"
    by (simp add: slice_in_range)
  moreover have "0 \<le> i \<and> int (length xs) \<le> j \<longrightarrow> ?ys = drop (nat i) xs"
    by (simp add: slice_clamped)
  moreover have "0 \<le> j \<and> j \<le> i \<longrightarrow> ?ys = []"
    by (simp add: slice_reordered)
  ultimately show ?thesis by blast
qed

theorem copy_bytes_slice_semantics_witness:
  "byte_container [Bytes [0x10, 0x20, 0x30, 0x40]] (PRef 0) \<and>
   contents [Bytes [0x10, 0x20, 0x30, 0x40]] (PRef 0) = Some [0x10, 0x20, 0x30, 0x40] \<and>
   (\<exists>r h'. copy_bytes (PInt 2) (PInt 100) (PRef 0) [Bytes [0x10, 0x20, 0x30, 0x40]] = (Inr r, h') \<and>
      isinstance_bytes h' r \<and> contents h' r = Some [0x30, 0x40]) \<and>
   (\<exists>r h'. copy_bytes (PInt 0) (PInt 2) (PRef 0) [Bytes [0x10, 0x20, 0x30, 0x40]] = (Inr r, h') \<and>
      isinstance_bytes h' r \<and> contents h' r = Some [0x10, 0x20]) \<and>
   (\<exists>r h'. copy_bytes (PInt 3) (PInt 1) (PRef 0) [Bytes [0x10, 0x20, 0x30, 0x40]] = (Inr r, h') \<and>
      isinstance_bytes h' r \<and> contents h' r = Some [])"
proof -
  let ?h = "[Bytes [0x10, 0x20, 0x30, 0x40]]"
  have c: "byte_container ?h (PRef 0)" by (simp add: byte_container_def)
  have x: "contents ?h (PRef 0) = Some [0x10, 0x20, 0x30, 0x40]"
    by (simp add: contents_def lookup_def)
  from copy_bytes_slice_semantics [OF c x, of 2 100]
  have "\<exists>r h'. copy_bytes (PInt 2) (PInt 100) (PRef 0) ?h = (Inr r, h') \<and>
      isinstance_bytes h' r \<and> contents h' r = Some [0x30, 0x40]"
    by auto
  moreover from copy_bytes_slice_semantics [OF c x, of 0 2]
  have "\<exists>r h'. copy_bytes (PInt 0) (PInt 2) (PRef 0) ?h = (Inr r, h') \<and>
      isinstance_bytes h' r \<and> contents h' r = Some [0x10, 0x20]"
    by auto
  moreover from copy_bytes_slice_semantics [OF c x, of 3 1]
  have "\<exists>r h'. copy_bytes (PInt 3) (PInt 1) (PRef 0) ?h = (Inr r, h') \<and>
      isinstance_bytes h' r \<and> contents h' r = Some []"
    by auto
  ultimately show ?thesis using c x by blast
qed

subsection \<open>The copy shares nothing with its source\<close>

lemma setitem_keeps_bytes:
  "lookup h a = Some (Bytes bs) \<Longrightarrow> lookup (snd (setitem v i x h)) a = Some (Bytes bs)"
  by (auto simp: setitem_def lookup_def nth_list_update
      split: pyval.splits option.splits obj.splits if_splits)

lemma setitems_keeps_bytes:
  "lookup h a = Some (Bytes bs) \<Longrightarrow> lookup (setitems v ws h) a = Some (Bytes bs)"
proof (induction ws arbitrary: h)
  case Nil
  then show ?case by simp
next
  case (Cons w ws)
  then show ?case by (cases w) (simp add: setitem_keeps_bytes)
qed

lemma setitem_ref_elsewhere:
  "a \<noteq> k \<Longrightarrow> lookup (snd (setitem (PRef k) i x h)) a = lookup h a"
  by (auto simp: setitem_def lookup_def nth_list_update
      split: option.splits obj.splits if_splits)

lemma setitems_ref_elsewhere:
  "a \<noteq> k \<Longrightarrow> lookup (setitems (PRef k) ws h) a = lookup h a"
proof (induction ws arbitrary: h)
  case Nil
  then show ?case by simp
next
  case (Cons w ws)
  then show ?case by (cases w) (simp add: setitem_ref_elsewhere)
qed

lemma contents_cong:
  "storage m = Some a \<Longrightarrow> lookup h1 a = lookup h2 a \<Longrightarrow> contents h1 m = contents h2 m"
  by (cases m) (simp_all add: contents_def view_contents_def)

lemma mutable_buffer_storage:
  "mutable_buffer h m \<Longrightarrow> \<exists>a bs. storage m = Some a \<and> lookup h a = Some (ByteArray bs)"
  by (cases m)
    (auto simp: mutable_buffer_def isinstance_bytearray_def split: option.splits obj.splits)

lemma copy_bytes_of_mutable:
  assumes "mutable_buffer h m" and "contents h m = Some xs"
  shows "\<exists>k tmp. copy_bytes (PInt i) (PInt j) m h =
      (Inr (PRef (length h + k)),
       h @ tmp @ [Bytes (slice_list (adjust_index i (length xs), adjust_index j (length xs)) xs)]) \<and>
      length tmp = k"
proof (cases m)
  case (PRef a)
  with assms obtain bs where "lookup h a = Some (ByteArray bs)" and "xs = bs"
    by (auto simp: mutable_buffer_def isinstance_bytearray_def contents_def
        split: option.splits obj.splits)
  with PRef copy_bytes_of_bytearray [of h a bs i j] show ?thesis
    by (intro exI [of _ 1] exI [of _ "[ByteArray (slice_list (adjust_index i (length xs), adjust_index j (length xs)) xs)]"]) simp
next
  case (PMemoryview a off n ro)
  with assms obtain bs where x: "lookup h a = Some (ByteArray bs)" and "off + n \<le> length bs"
    and xs: "xs = take n (drop off bs)"
    by (auto simp: mutable_buffer_def contents_def view_contents_def
        split: option.splits obj.splits)
  then have "length xs = n" by simp
  with x xs PMemoryview copy_bytes_of_memoryview [of h a "ByteArray bs" i j off n ro]
  show ?thesis
    by (intro exI [of _ 0] exI [of _ "[]"]) simp
qed (use assms in \<open>simp_all add: mutable_buffer_def\<close>)



text \<open>
  Claim C9: for a mutable buffer \<open>m\<close> (a \<^verbatim>\<open>bytearray\<close> or a writable view of one)
  and bounds \<open>0 \<le> start \<le> end \<le> length\<close>, \<^verbatim>\<open>_copy_bytes\<close> returns a
  \<^verbatim>\<open>bytes\<close> object that did not exist before the call and holds the elements of
  \<open>m\<close> in \<open>[start, end)\<close> at call time; \<open>m\<close> is left as it was; no run of
  assignments afterwards, to \<open>m\<close> or through any other reference, changes what the
  copy holds; and no run of assignments to \<^verbatim>\<open>bytearray(copy)\<close>, a writable copy
  of the result, changes what \<open>m\<close> holds.
\<close>

theorem copy_bytes_no_alias:
  assumes "mutable_buffer h m" and "contents h m = Some xs"
    and "0 \<le> i" and "i \<le> j" and "j \<le> int (length xs)"
  shows "\<exists>a h'. copy_bytes (PInt i) (PInt j) m h = (Inr (PRef a), h') \<and>
      length h \<le> a \<and>
      lookup h' a = Some (Bytes (take (nat (j - i)) (drop (nat i) xs))) \<and>
      contents h' m = Some xs \<and>
      (\<forall>v ws. contents (setitems v ws h') (PRef a) =
         Some (take (nat (j - i)) (drop (nat i) xs))) \<and>
      (\<exists>w h''. bytearray_ctor (PRef a) h' = (Inr w, h'') \<and>
         contents h'' w = Some (take (nat (j - i)) (drop (nat i) xs)) \<and>
         (\<forall>ws. contents (setitems w ws h'') m = Some xs))"
proof -
  let ?ys = "take (nat (j - i)) (drop (nat i) xs)"
  from copy_bytes_of_mutable [OF assms(1,2), of i j] slice_in_range [OF assms(3-5)]
  obtain tmp where call: "copy_bytes (PInt i) (PInt j) m h =
      (Inr (PRef (length h + length tmp)), h @ tmp @ [Bytes ?ys])"
    by auto
  let ?a = "length h + length tmp"
  let ?h' = "h @ tmp @ [Bytes ?ys]"
  let ?w = "length ?h'"
  let ?h'' = "?h' @ [ByteArray ?ys]"
  from mutable_buffer_storage [OF assms(1)]
  obtain s bs where s: "storage m = Some s" and sb: "lookup h s = Some (ByteArray bs)"
    by blast
  from sb have sl: "s < length h" by (rule lookup_Some_less)
  have new: "lookup ?h' ?a = Some (Bytes ?ys)"
    by (simp add: lookup_def nth_append)
  have src: "contents ?h' m = Some xs"
    using contents_cong [OF s, of ?h' h] sl assms(2) by (simp add: lookup_append_old)
  have kept: "contents (setitems v ws ?h') (PRef ?a) = Some ?ys" for v ws
    using setitems_keeps_bytes [OF new, of v ws] by (simp add: contents_def)
  have ctor: "bytearray_ctor (PRef ?a) ?h' = (Inr (PRef ?w), ?h'')"
    using new by (simp add: bytearray_ctor_def alloc_def)
  have wc: "contents ?h'' (PRef ?w) = Some ?ys"
    by (simp add: contents_def lookup_def nth_append)
  have source: "contents (setitems (PRef ?w) ws ?h'') m = Some xs" for ws
  proof -
    from sl have "s \<noteq> ?w" by simp
    then have "lookup (setitems (PRef ?w) ws ?h'') s = lookup ?h'' s"
      by (rule setitems_ref_elsewhere)
    also from sl have "\<dots> = lookup h s" by (simp add: lookup_def nth_append)
    finally have "contents (setitems (PRef ?w) ws ?h'') m = contents h m"
      by (rule contents_cong [OF s])
    with assms(2) show ?thesis by simp
  qed
  from call new src kept ctor wc source show ?thesis
    by (intro exI [of _ "?a"] exI [of _ "?h'"] conjI allI exI [of _ "PRef ?w"] exI [of _ "?h''"])
      simp_all
qed

theorem copy_bytes_no_alias_witness:
  "(mutable_buffer [ByteArray [1, 2, 3, 4]] (PRef 0) \<and>
   contents [ByteArray [1, 2, 3, 4]] (PRef 0) = Some [1, 2, 3, 4] \<and>
   (\<exists>a h'. copy_bytes (PInt 1) (PInt 3) (PRef 0) [ByteArray [1, 2, 3, 4]] = (Inr (PRef a), h') \<and>
      contents h' (PRef a) = Some [2, 3] \<and>
      contents (setitems (PRef 0) [(1, 255)] h') (PRef 0) = Some [1, 255, 3, 4] \<and>
      contents (setitems (PRef 0) [(1, 255)] h') (PRef a) = Some [2, 3] \<and>
      (\<exists>w h''. bytearray_ctor (PRef a) h' = (Inr w, h'') \<and>
         contents (setitems w [(0, 9)] h'') w = Some [9, 3] \<and>
         contents (setitems w [(0, 9)] h'') (PRef 0) = Some [1, 2, 3, 4]))) \<and>
   (mutable_buffer [ByteArray [1, 2, 3, 4]] (PMemoryview 0 1 3 False) \<and>
   contents [ByteArray [1, 2, 3, 4]] (PMemoryview 0 1 3 False) = Some [2, 3, 4] \<and>
   (\<exists>a h'. copy_bytes (PInt 0) (PInt 2) (PMemoryview 0 1 3 False) [ByteArray [1, 2, 3, 4]] =
        (Inr (PRef a), h') \<and>
      contents h' (PRef a) = Some [2, 3] \<and>
      contents (setitems (PMemoryview 0 1 3 False) [(0, 9)] h') (PRef 0) = Some [1, 9, 3, 4] \<and>
      contents (setitems (PMemoryview 0 1 3 False) [(0, 9)] h') (PRef a) = Some [2, 3]))"
proof -
  have array: "mutable_buffer [ByteArray [1, 2, 3, 4]] (PRef 0) \<and>
   contents [ByteArray [1, 2, 3, 4]] (PRef 0) = Some [1, 2, 3, 4] \<and>
   (\<exists>a h'. copy_bytes (PInt 1) (PInt 3) (PRef 0) [ByteArray [1, 2, 3, 4]] = (Inr (PRef a), h') \<and>
      contents h' (PRef a) = Some [2, 3] \<and>
      contents (setitems (PRef 0) [(1, 255)] h') (PRef 0) = Some [1, 255, 3, 4] \<and>
      contents (setitems (PRef 0) [(1, 255)] h') (PRef a) = Some [2, 3] \<and>
      (\<exists>w h''. bytearray_ctor (PRef a) h' = (Inr w, h'') \<and>
         contents (setitems w [(0, 9)] h'') w = Some [9, 3] \<and>
         contents (setitems w [(0, 9)] h'') (PRef 0) = Some [1, 2, 3, 4]))"
  proof -
    let ?h = "[ByteArray [1, 2, 3, 4]]"
    have m: "mutable_buffer ?h (PRef 0)"
      by (simp add: mutable_buffer_def isinstance_bytearray_def lookup_def)
    have x: "contents ?h (PRef 0) = Some [1, 2, 3, 4]"
      by (simp add: contents_def lookup_def)
    from copy_bytes_no_alias [OF m x, of 1 3]
    obtain a h' w h'' where call: "copy_bytes (PInt 1) (PInt 3) (PRef 0) ?h = (Inr (PRef a), h')"
      and kept: "\<And>v ws. contents (setitems v ws h') (PRef a) = Some [2, 3]"
      and ctor: "bytearray_ctor (PRef a) h' = (Inr w, h'')"
      and source: "\<And>ws. contents (setitems w ws h'') (PRef 0) = Some [1, 2, 3, 4]"
      by auto
    have eval: "copy_bytes (PInt 1) (PInt 3) (PRef 0) ?h =
        (Inr (PRef 2), [ByteArray [1, 2, 3, 4], ByteArray [2, 3], Bytes [2, 3]])"
      by (simp add: copy_bytes_def isinstance_memoryview_def isinstance_bytearray_def
          getslice_def slice_bounds_def adjust_index_def slice_list_def alloc_def lookup_def
          bytes_ctor_def)
    with call have a: "a = 2" and h': "h' = [ByteArray [1, 2, 3, 4], ByteArray [2, 3], Bytes [2, 3]]"
      by simp_all
    have w: "w = PRef 3" and h'': "h'' = h' @ [ByteArray [2, 3]]"
      using ctor unfolding a h' by (auto simp: bytearray_ctor_def alloc_def lookup_def)
    have seen: "contents (setitems (PRef 0) [(1, 255)] h') (PRef 0) = Some [1, 255, 3, 4]"
      unfolding h' by (simp add: setitem_def lookup_def index_of_def contents_def)
    have own: "contents (setitems w [(0, 9)] h'') w = Some [9, 3]"
      unfolding w h'' h' by (simp add: setitem_def lookup_def index_of_def contents_def)
    from kept [of "PRef 0" "[(1, 255)]"] kept [of "PRef 0" "[]"] source [of "[(0, 9)]"]
      call ctor seen own m x
    show ?thesis by auto
  qed
  have view: "mutable_buffer [ByteArray [1, 2, 3, 4]] (PMemoryview 0 1 3 False) \<and>
   contents [ByteArray [1, 2, 3, 4]] (PMemoryview 0 1 3 False) = Some [2, 3, 4] \<and>
   (\<exists>a h'. copy_bytes (PInt 0) (PInt 2) (PMemoryview 0 1 3 False) [ByteArray [1, 2, 3, 4]] =
        (Inr (PRef a), h') \<and>
      contents h' (PRef a) = Some [2, 3] \<and>
      contents (setitems (PMemoryview 0 1 3 False) [(0, 9)] h') (PRef 0) = Some [1, 9, 3, 4] \<and>
      contents (setitems (PMemoryview 0 1 3 False) [(0, 9)] h') (PRef a) = Some [2, 3])"
  proof -
    let ?h = "[ByteArray [1, 2, 3, 4]]"
    let ?m = "PMemoryview 0 1 3 False"
    have m: "mutable_buffer ?h ?m"
      by (simp add: mutable_buffer_def lookup_def)
    have x: "contents ?h ?m = Some [2, 3, 4]"
      by (simp add: contents_def view_contents_def lookup_def)
    from copy_bytes_no_alias [OF m x, of 0 2]
    obtain a h' where call: "copy_bytes (PInt 0) (PInt 2) ?m ?h = (Inr (PRef a), h')"
      and kept: "\<And>v ws. contents (setitems v ws h') (PRef a) = Some [2, 3]"
      by auto
    have "copy_bytes (PInt 0) (PInt 2) ?m ?h = (Inr (PRef 1), [ByteArray [1, 2, 3, 4], Bytes [2, 3]])"
      by (simp add: copy_bytes_def isinstance_memoryview_def getslice_def slice_bounds_def
          adjust_index_def view_contents_def memoryview_tobytes_def alloc_def lookup_def)
    with call have h': "h' = [ByteArray [1, 2, 3, 4], Bytes [2, 3]]" by simp
    have seen: "contents (setitems ?m [(0, 9)] h') (PRef 0) = Some [1, 9, 3, 4]"
      unfolding h' by (simp add: setitem_def lookup_def index_of_def contents_def)
    from kept [of ?m "[(0, 9)]"] kept [of ?m "[]"] call seen m x
    show ?thesis by auto
  qed
  from array view show ?thesis by blast
qed

end
